theory Spec2Isabelle
  imports Main
begin

section \<open>Data model\<close>

text \<open>
  A \<open>Document\<close> of the retrieval library carries its text in \<open>page_content\<close> and a
  metadata dictionary. A Python \<open>str\<close> is a \<open>string\<close> here; a \<open>char\<close> stands for
  a code point below 256.
\<close>

record document =
  page_content :: string
  metadata :: "(string \<times> string) list"

text \<open>Chat messages: the roles a prompt and a chat history hold.\<close>

datatype message = SystemMessage string | HumanMessage string | AIMessage string

text \<open>
  Exceptions as values. \<open>KeyError\<close> and \<open>AttributeError\<close> are what the body of
  \<open>ask_question\<close> can raise itself, \<open>RetrieverError\<close> is the class declared in
  \<open>retriever.py\<close>, and \<open>Exception\<close> is any other subclass of Python's
  \<open>Exception\<close> with its message (what a collaborator raises when it fails).
\<close>

datatype exn =
    KeyError string
  | AttributeError string
  | RetrieverError string
  | Exception string

text \<open>Python's \<open>str(e)\<close>: a \<open>KeyError\<close> prints the repr of its key.\<close>

fun str_exn :: "exn \<Rightarrow> string" where
  "str_exn (KeyError k) = [CHR 0x27] @ k @ [CHR 0x27]"
| "str_exn (AttributeError m) = m"
| "str_exn (RetrieverError m) = m"
| "str_exn (Exception m) = m"

section \<open>chain.py: format_documents\<close>

text \<open>
  \<open>str.isspace\<close> on code points below 256: TAB to CR, FS to US, the space, NEL and
  the no-break space.
\<close>

definition isspace :: "char \<Rightarrow> bool" where
  "isspace c = ((of_char c :: nat) \<in> {9, 10, 11, 12, 13, 28, 29, 30, 31, 32, 133, 160})"

text \<open>\<open>str.strip()\<close>: drop the whitespace at both ends.\<close>

definition strip :: "string \<Rightarrow> string" where
  "strip s = rev (dropWhile isspace (rev (dropWhile isspace s)))"

text \<open>The character class of \<open>re.sub(r'[{}\[\]]', '', content)\<close>.\<close>

definition structural :: "char \<Rightarrow> bool" where
  "structural c = (c = CHR ''{'' \<or> c = CHR ''}'' \<or> c = CHR ''['' \<or> c = CHR '']'')"

definition re_sub_structural :: "string \<Rightarrow> string" where
  "re_sub_structural s = filter (\<lambda>c. \<not> structural c) s"

text \<open>\<open>sep.join(xs)\<close>.\<close>

fun join :: "string \<Rightarrow> string list \<Rightarrow> string" where
  "join sep [] = []"
| "join sep [x] = x"
| "join sep (x # y # ys) = x @ sep @ join sep (y # ys)"

text \<open>The two statements that compute \<open>content\<close> in the loop body.\<close>

definition content_of :: "document \<Rightarrow> string" where
  "content_of doc = re_sub_structural (strip (page_content doc))"

text \<open>
  The loop appends the cleaned content and then the line \<open>---\<close> to \<open>texts\<close> for each
  document; the result joins \<open>texts\<close> with a newline.
\<close>

definition format_texts :: "document list \<Rightarrow> string list" where
  "format_texts documents =
     foldl (\<lambda>texts doc. (texts @ [content_of doc]) @ [''---'']) [] documents"

definition format_documents :: "document list \<Rightarrow> string" where
  "format_documents documents = join [CHR 0x0A] (format_texts documents)"

section \<open>session_history.py: SessionManager\<close>

text \<open>
  Times are integers in microseconds, the resolution of \<open>datetime\<close>; a
  \<open>timedelta\<close> is their difference. A \<open>ChatMessageHistory\<close> is a mutable object
  shared by reference: the objects live in a heap, a function from addresses to the
  \<open>messages\<close> of the object, and a session entry holds the address of its history.
\<close>

type_synonym time = int
type_synonym addr = nat

record session_data =
  history :: addr
  created_at :: time
  last_accessed :: time

text \<open>
  The state: the \<open>sessions\<close> dictionary and \<open>session_timeout\<close> of the manager, the
  heap of history objects and the next address the heap has not handed out.
\<close>

record state =
  sessions :: "string \<rightharpoonup> session_data"
  session_timeout :: int
  heap :: "addr \<Rightarrow> message list"
  next_addr :: addr

text \<open>\<open>SessionManager.__init__\<close>: no session, a timeout of one hour.\<close>

definition SessionManager_init :: "state" where
  "SessionManager_init =
     \<lparr>sessions = Map.empty, session_timeout = 3600000000, heap = (\<lambda>a. []), next_addr = 0\<rparr>"

text \<open>
  \<open>_clean_expired_sessions\<close>, with the clock reading it takes. \<open>expired_sessions\<close> is
  the condition of the list comprehension: the ids whose entry is stale. The loop then
  deletes each of them, which leaves the other entries as they were.
\<close>

definition expired_sessions :: "state \<Rightarrow> time \<Rightarrow> string \<Rightarrow> bool" where
  "expired_sessions st current_time session_id =
     (case sessions st session_id of
        None \<Rightarrow> False
      | Some session_data \<Rightarrow> current_time - last_accessed session_data > session_timeout st)"

definition clean_expired_sessions :: "state \<Rightarrow> time \<Rightarrow> state" where
  "clean_expired_sessions st current_time =
     st\<lparr>sessions := (\<lambda>session_id. if expired_sessions st current_time session_id then None
                                  else sessions st session_id)\<rparr>"

text \<open>
  \<open>get_session_history\<close>. The clock is read twice: \<open>current_time\<close> at the top of the
  method, and \<open>sweep_time\<close> inside the sweep. The result is the address of the
  session's history and the new state. \<open>ChatMessageHistory()\<close> allocates an empty
  history at the next free address.
\<close>

definition get_session_history :: "state \<Rightarrow> string \<Rightarrow> time \<Rightarrow> time \<Rightarrow> addr \<times> state" where
  "get_session_history st session_id current_time sweep_time =
     (let st1 = clean_expired_sessions st sweep_time in
      case sessions st1 session_id of
        None \<Rightarrow>
          (let a = next_addr st1 in
           (a, st1\<lparr>sessions := (sessions st1)(session_id \<mapsto>
                       \<lparr>history = a, created_at = current_time, last_accessed = current_time\<rparr>),
                   heap := (heap st1)(a := []),
                   next_addr := Suc a\<rparr>))
      | Some d \<Rightarrow>
          (history d,
           st1\<lparr>sessions := (sessions st1)(session_id \<mapsto> d\<lparr>last_accessed := current_time\<rparr>)\<rparr>))"

text \<open>
  \<open>get_session_info\<close>: the dictionary it returns, or \<open>None\<close>. It is returned with the
  state the call leaves behind.
\<close>

record session_info =
  info_created_at :: time
  info_last_accessed :: time
  info_message_count :: nat

definition get_session_info :: "state \<Rightarrow> string \<Rightarrow> session_info option \<times> state" where
  "get_session_info st session_id =
     (case sessions st session_id of
        Some d \<Rightarrow>
          (Some \<lparr>info_created_at = created_at d,
                 info_last_accessed = last_accessed d,
                 info_message_count = length (heap st (history d))\<rparr>, st)
      | None \<Rightarrow> (None, st))"

text \<open>
  \<open>ChatMessageHistory.add_messages\<close> through a handle, and reading \<open>messages\<close>
  through one.
\<close>

definition add_messages :: "state \<Rightarrow> addr \<Rightarrow> message list \<Rightarrow> state" where
  "add_messages st a msgs = st\<lparr>heap := (heap st)(a := heap st a @ msgs)\<rparr>"

definition messages :: "state \<Rightarrow> addr \<Rightarrow> message list" where
  "messages st a = heap st a"

text \<open>
  Every history a session entry holds was handed out by the heap. The empty manager
  satisfies this, and \<open>get_session_history\<close> and \<open>add_messages\<close> keep it.
\<close>

definition handles_allocated :: "state \<Rightarrow> bool" where
  "handles_allocated st = (\<forall>k d. sessions st k = Some d \<longrightarrow> history d < next_addr st)"

text \<open>
  The lines of a string, split at its newlines, to say what a reader of the formatted
  context sees, and the passages whose cleaned text has no line equal to the delimiter.
\<close>

fun split_lines :: "string \<Rightarrow> string list" where
  "split_lines [] = [[]]"
| "split_lines (c # cs) =
     (if c = CHR 0x0A then [] # split_lines cs
      else (case split_lines cs of [] \<Rightarrow> [[c]] | l # ls \<Rightarrow> (c # l) # ls))"


definition delimiter_free :: "document \<Rightarrow> bool" where
  "delimiter_free d = (''---'' \<notin> set (split_lines (content_of d)))"

section \<open>chain.py: ask_question\<close>

text \<open>
  The values \<open>ask_question\<close> reads from an event and yields: a list of documents, a
  message chunk of the language model (an object with a \<open>content\<close>), a string.
\<close>

datatype pyval = Documents "document list" | AIMessageChunk string | Str string

text \<open>
  An event of \<open>astream_events\<close>: a dictionary with the event type under \<open>event\<close>, the
  name of the run under \<open>name\<close> and a dictionary under \<open>data\<close>. The stream ends by
  exhaustion or by raising.
\<close>

record stream_event =
  event :: string
  run_name :: string
  data :: "(string \<times> pyval) list"

datatype stream_end = Exhausted | Raised exn

text \<open>\<open>d[k]\<close> on a dictionary, and \<open>v.content\<close>.\<close>

definition getitem :: "(string \<times> pyval) list \<Rightarrow> string \<Rightarrow> exn + pyval" where
  "getitem d k = (case map_of d k of None \<Rightarrow> Inl (KeyError k) | Some v \<Rightarrow> Inr v)"

fun content :: "pyval \<Rightarrow> exn + pyval" where
  "content (AIMessageChunk c) = Inr (Str c)"
| "content (Documents ds) = Inl (AttributeError ([CHR 0x27] @ ''list'' @ [CHR 0x27] @ '' object has no attribute ''
        @ [CHR 0x27] @ ''content'' @ [CHR 0x27]))"
| "content (Str s) = Inl (AttributeError ([CHR 0x27] @ ''str'' @ [CHR 0x27] @ '' object has no attribute ''
        @ [CHR 0x27] @ ''content'' @ [CHR 0x27]))"

text \<open>
  The body of the \<open>async for\<close> loop for one event: the values it yields, and the
  exception it raises if it does. The two \<open>if\<close> statements run one after the other.
\<close>

definition on_event :: "stream_event \<Rightarrow> pyval list \<times> exn option" where
  "on_event ev =
     (case (if event ev = ''on_retriever_end''
            then (case getitem (data ev) ''output'' of Inl e \<Rightarrow> Inl e | Inr v \<Rightarrow> Inr [v])
            else Inr []) of
        Inl e \<Rightarrow> ([], Some e)
      | Inr ys1 \<Rightarrow>
          (if event ev = ''on_chain_stream''
           then (case getitem (data ev) ''chunk'' of
                   Inl e \<Rightarrow> (ys1, Some e)
                 | Inr v \<Rightarrow> (case content v of
                              Inl e \<Rightarrow> (ys1, Some e)
                            | Inr c \<Rightarrow> (ys1 @ [c], None)))
           else (ys1, None)))"

text \<open>
  The \<open>try\<close> block: the loop over the stream. It gives the values yielded and the
  exception that left the block, from the stream or from the body.
\<close>

fun try_block :: "stream_event list \<Rightarrow> stream_end \<Rightarrow> pyval list \<times> exn option" where
  "try_block [] Exhausted = ([], None)"
| "try_block [] (Raised e) = ([], Some e)"
| "try_block (ev # evs) fin =
     (case on_event ev of
        (ys, Some e) \<Rightarrow> (ys, Some e)
      | (ys, None) \<Rightarrow> (case try_block evs fin of (zs, r) \<Rightarrow> (ys @ zs, r)))"

text \<open>
  \<open>ask_question\<close>. The chain is the behaviour of its \<open>astream_events\<close> for a question
  and a session id, with the \<open>include_names\<close> filter applied: the events, how the stream
  ends, and the state it leaves. The result is the values the generator yields, the
  exception that leaves the generator (\<open>None\<close> when it returns), and the state.
  \<open>except Exception\<close> yields the error string and the generator returns. The state is
  the one the stream leaves when it is read to its end.
\<close>

type_synonym 'st chain = "string \<Rightarrow> string \<Rightarrow> 'st \<Rightarrow> (stream_event list \<times> stream_end) \<times> 'st"

definition ask_question ::
  "'st chain \<Rightarrow> string \<Rightarrow> string \<Rightarrow> 'st \<Rightarrow> (pyval list \<times> exn option) \<times> 'st" where
  "ask_question chain question session_id st =
     (case chain question session_id st of
        ((evs, fin), st') \<Rightarrow>
          (case try_block evs fin of
             (ys, None) \<Rightarrow> ((ys, None), st')
           | (ys, Some e) \<Rightarrow>
               ((ys @ [Str (''Error processing question: '' @ str_exn e)], None), st')))"

section \<open>chain.py: create_chain\<close>

text \<open>
  \<open>SYSTEM_PROMPT\<close> around its \<open>{context}\<close> placeholder, and the prompt
  \<open>ChatPromptTemplate.from_messages\<close> builds: the system message, the chat history, the
  question.
\<close>

definition SYSTEM_PROMPT_before :: string where
  "SYSTEM_PROMPT_before =
     [CHR 0x0A] @
     ''You are a helpful plant shop assistant. Use the provided context to answer customer questions about plants.'' @ [CHR 0x0A] @
     ''When answering questions about prices, quantities, or other numeric values, be sure to state the exact number from the context.'' @ [CHR 0x0A] @
     ''If a question asks about a specific number (price, quantity, rating, etc.), provide the precise value.'' @ [CHR 0x0A] @
     ''If you cannot find the answer in the context, simply say that you don'' @ [CHR 0x27] @ ''t have that information.'' @ [CHR 0x0A] @
     [CHR 0x0A] @
     ''Context:'' @ [CHR 0x0A]"

definition SYSTEM_PROMPT_after :: string where
  "SYSTEM_PROMPT_after =
     [CHR 0x0A] @ [CHR 0x0A] @
     ''Always format prices with the $ symbol and be precise with numbers.'' @ [CHR 0x0A]"

definition prompt :: "string \<Rightarrow> message list \<Rightarrow> string \<Rightarrow> message list" where
  "prompt context chat_history question =
     [SystemMessage (SYSTEM_PROMPT_before @ context @ SYSTEM_PROMPT_after)]
     @ chat_history @ [HumanMessage question]"

text \<open>
  The collaborators: a retriever returns documents for a query or raises; a language
  model streams the chunks of its answer to a prompt and then ends or raises.
\<close>

type_synonym retriever_fn = "string \<Rightarrow> exn + document list"
type_synonym llm_fn = "message list \<Rightarrow> string list \<times> exn option"

text \<open>The events of the two runs the filter of \<open>ask_question\<close> lets through.\<close>

definition on_chain_start :: stream_event where
  "on_chain_start = \<lparr>event = ''on_chain_start'', run_name = ''chain_answer'', data = []\<rparr>"

definition on_retriever_start :: stream_event where
  "on_retriever_start =
     \<lparr>event = ''on_retriever_start'', run_name = ''context_retriever'', data = []\<rparr>"

definition on_retriever_end :: "document list \<Rightarrow> stream_event" where
  "on_retriever_end docs =
     \<lparr>event = ''on_retriever_end'', run_name = ''context_retriever'',
      data = [(''output'', Documents docs)]\<rparr>"

definition on_chain_stream :: "string \<Rightarrow> stream_event" where
  "on_chain_stream c =
     \<lparr>event = ''on_chain_stream'', run_name = ''chain_answer'',
      data = [(''chunk'', AIMessageChunk c)]\<rparr>"

definition on_chain_end :: stream_event where
  "on_chain_end = \<lparr>event = ''on_chain_end'', run_name = ''chain_answer'', data = []\<rparr>"

text \<open>
  Modelled from the spec: the run of the chain \<open>create_chain\<close> composes. The library
  that executes \<open>RunnableWithMessageHistory\<close> and \<open>astream_events\<close> is not under src/.
  The stages are those \<open>create_chain\<close> wires, in its order: the history of the session is
  resolved with \<open>get_session_history\<close> (at the clock readings \<open>current_time\<close> and
  \<open>sweep_time\<close>), the retriever is called with the question, its documents are formatted
  by \<open>format_documents\<close>, the prompt is built and the model streams its answer; when the
  stream completes, the question and the full answer are appended to the history. A
  collaborator that raises ends the stream with its exception, and nothing is appended.
\<close>

definition create_chain :: "llm_fn \<Rightarrow> retriever_fn \<Rightarrow> time \<Rightarrow> time \<Rightarrow> state chain" where
  "create_chain llm retriever current_time sweep_time question session_id st =
     (case get_session_history st session_id current_time sweep_time of
        (h, st1) \<Rightarrow>
          (case retriever question of
             Inl e \<Rightarrow> (([on_chain_start, on_retriever_start], Raised e), st1)
           | Inr docs \<Rightarrow>
               (case llm (prompt (format_documents docs) (messages st1 h) question) of
                  (chunks, Some e) \<Rightarrow>
                    (([on_chain_start, on_retriever_start, on_retriever_end docs]
                        @ map on_chain_stream chunks, Raised e), st1)
                | (chunks, None) \<Rightarrow>
                    (([on_chain_start, on_retriever_start, on_retriever_end docs]
                        @ map on_chain_stream chunks @ [on_chain_end], Exhausted),
                     add_messages st1 h [HumanMessage question, AIMessage (concat chunks)]))))"

section \<open>retriever.py: create_retriever\<close>

text \<open>
  A retriever object: the one \<open>as_retriever\<close> builds on a vector store with its \<open>k\<close>, or
  a \<open>ContextualCompressionRetriever\<close> of a compressor over a base retriever.
\<close>

datatype ('vs, 'c) retriever =
    VectorStoreRetriever 'vs int
  | ContextualCompressionRetriever 'c "('vs, 'c) retriever"

text \<open>\<open>Config.Retriever\<close>, read from the environment when the module loads.\<close>

record config =
  USE_RERANKER :: bool
  USE_CHAIN_FILTER :: bool
  TOP_K :: int

text \<open>
  What the constructors outside this file give when they are called:
  \<open>Qdrant.from_existing_collection\<close>, \<open>create_reranker\<close> of \<open>ragbase.model\<close> and
  \<open>LLMChainFilter.from_llm\<close> each return an object or raise. \<open>truth_value\<close> is the
  truth value Python gives a vector store object (\<open>bool(vector_store)\<close>).
\<close>

record ('vs, 'c) constructors =
  from_existing_collection :: "exn + 'vs"
  create_reranker :: "exn + 'c"
  from_llm :: "exn + 'c"
  truth_value :: "'vs \<Rightarrow> bool"

text \<open>
  The first statement of \<open>create_retriever\<close>: \<open>if not vector_store\<close> opens the existing
  collection when the argument is \<open>None\<close> or an object that tests false, and keeps the
  argument otherwise.
\<close>

definition resolve_vector_store :: "('vs, 'c) constructors \<Rightarrow> 'vs option \<Rightarrow> exn + 'vs" where
  "resolve_vector_store env vector_store =
     (case vector_store of
        None \<Rightarrow> from_existing_collection env
      | Some vs \<Rightarrow> if \<not> truth_value env vs then from_existing_collection env else Inr vs)"

text \<open>
  \<open>create_retriever\<close>: the retriever or the \<open>RetrieverError\<close> raised, and the lines
  printed. Each optional stage has its own \<open>try\<close>: when its compressor raises, the
  warning is printed and \<open>retriever\<close> keeps its value.
\<close>

definition rerank_stage ::
  "config \<Rightarrow> ('vs, 'c) constructors \<Rightarrow> ('vs, 'c) retriever \<Rightarrow> ('vs, 'c) retriever \<times> string list" where
  "rerank_stage cfg env retriever =
     (if USE_RERANKER cfg then
        (case create_reranker env of
           Inr c \<Rightarrow> (ContextualCompressionRetriever c retriever, [])
         | Inl e \<Rightarrow> (retriever, [''Warning: Reranker initialization failed: '' @ str_exn e]))
      else (retriever, []))"

definition filter_stage ::
  "config \<Rightarrow> ('vs, 'c) constructors \<Rightarrow> ('vs, 'c) retriever \<Rightarrow> ('vs, 'c) retriever \<times> string list" where
  "filter_stage cfg env retriever =
     (if USE_CHAIN_FILTER cfg then
        (case from_llm env of
           Inr c \<Rightarrow> (ContextualCompressionRetriever c retriever, [])
         | Inl e \<Rightarrow> (retriever, [''Warning: Chain filter initialization failed: '' @ str_exn e]))
      else (retriever, []))"

definition create_retriever ::
  "config \<Rightarrow> ('vs, 'c) constructors \<Rightarrow> 'vs option \<Rightarrow> (exn + ('vs, 'c) retriever) \<times> string list" where
  "create_retriever cfg env vector_store =
     (case resolve_vector_store env vector_store of
        Inl e \<Rightarrow> (Inl (RetrieverError (''Failed to create retriever: '' @ str_exn e)), [])
      | Inr vs \<Rightarrow>
          (case rerank_stage cfg env (VectorStoreRetriever vs (TOP_K cfg)) of
             (r1, out1) \<Rightarrow>
               (case filter_stage cfg env r1 of
                  (r2, out2) \<Rightarrow> (Inr r2, out1 @ out2))))"

text \<open>
  What a retriever object returns for a query, given the search of the vector store and
  the compressors: a compression retriever passes the documents of its base retriever
  through its compressor.
\<close>

fun invoke ::
  "('vs \<Rightarrow> int \<Rightarrow> string \<Rightarrow> exn + document list) \<Rightarrow>
   ('c \<Rightarrow> string \<Rightarrow> document list \<Rightarrow> exn + document list) \<Rightarrow>
   ('vs, 'c) retriever \<Rightarrow> retriever_fn" where
  "invoke search compress (VectorStoreRetriever vs k) query = search vs k query"
| "invoke search compress (ContextualCompressionRetriever c base) query =
     (case invoke search compress base query of
        Inl e \<Rightarrow> Inl e
      | Inr docs \<Rightarrow> compress c query docs)"

section \<open>app.py: draining the events\<close>

text \<open>
  The kinds of value \<open>ask_question\<close> yields, and the answer the \<open>chat\<close> endpoint builds:
  it keeps the events that are strings and joins them.
\<close>

fun is_documents :: "pyval \<Rightarrow> bool" where
  "is_documents (Documents ds) = True"
| "is_documents v = False"

fun is_str :: "pyval \<Rightarrow> bool" where
  "is_str (Str s) = True"
| "is_str v = False"

fun str_of :: "pyval \<Rightarrow> string" where
  "str_of (Str s) = s"
| "str_of v = []"

definition full_response :: "pyval list \<Rightarrow> string" where
  "full_response events = concat (map str_of (filter is_str events))"

section \<open>Concrete collaborators\<close>

text \<open>
  A retriever and a language model that succeed, a retriever that rejects a blank
  query, a model whose stream breaks after one chunk, the default configuration and
  constructors whose reranker fails: the inputs of the concrete checks below.
\<close>

definition example_doc :: document where
  "example_doc = \<lparr>page_content = ''Fern: $12'', metadata = []\<rparr>"

definition example_retriever :: retriever_fn where
  "example_retriever query = Inr [example_doc]"

definition example_llm :: llm_fn where
  "example_llm p = ([''Ferns cost '', ''$12''], None)"

definition strict_retriever :: retriever_fn where
  "strict_retriever query =
     (if strip query = [] then Inl (Exception ''empty query'') else Inr [example_doc])"

definition failing_llm :: llm_fn where
  "failing_llm p = ([''Ferns''], Some (Exception ''connection lost''))"

definition default_config :: config where
  "default_config = \<lparr>USE_RERANKER = True, USE_CHAIN_FILTER = False, TOP_K = 5\<rparr>"

definition broken_reranker :: "(string, string) constructors" where
  "broken_reranker =
     \<lparr>from_existing_collection = Inl (Exception ''collection not found''),
      create_reranker = Inl (Exception ''model not found''),
      from_llm = Inr ''chain filter'',
      truth_value = (\<lambda>vs. vs \<noteq> [])\<rparr>"

text \<open>A state with a stale and a live session, for the concrete checks below.\<close>

definition example_state :: state where
  "example_state =
     \<lparr>sessions = [''old'' \<mapsto> \<lparr>history = 0, created_at = 0, last_accessed = 0\<rparr>,
                  ''new'' \<mapsto> \<lparr>history = 1, created_at = 3600000000, last_accessed = 3600000000\<rparr>],
      session_timeout = 3600000000,
      heap = (\<lambda>a. []),
      next_addr = 2\<rparr>"

section \<open>Properties of format_documents\<close>

lemma format_texts_acc:
  "foldl (\<lambda>texts doc. (texts @ [content_of doc]) @ [''---'']) acc ds
     = acc @ concat (map (\<lambda>d. [content_of d, ''---'']) ds)"
  by (induction ds arbitrary: acc) auto

lemma format_texts_eq: "format_texts ds = concat (map (\<lambda>d. [content_of d, ''---'']) ds)"
  using format_texts_acc [of "[]" ds] by (simp add: format_texts_def)

lemma format_texts_Cons: "format_texts (d # ds) = content_of d # ''---'' # format_texts ds"
  by (simp add: format_texts_eq)

lemma format_texts_Nil: "format_texts [] = []"
  by (simp add: format_texts_eq)

lemma set_join: "set (join sep xs) \<subseteq> set sep \<union> \<Union> (set ` set xs)"
  by (induction sep xs rule: join.induct) auto

lemma content_of_clean: "c \<in> set (content_of d) \<Longrightarrow> \<not> structural c"
  by (simp add: content_of_def re_sub_structural_def)

lemma format_texts_clean: "t \<in> set (format_texts ds) \<Longrightarrow> c \<in> set t \<Longrightarrow> \<not> structural c"
  by (induction ds) (auto simp: format_texts_Cons format_texts_Nil structural_def dest: content_of_clean)

lemma format_documents_clean: "c \<in> set (format_documents ds) \<Longrightarrow> \<not> structural c"
proof -
  assume "c \<in> set (format_documents ds)"
  then have "c \<in> set [CHR 0x0A] \<union> \<Union> (set ` set (format_texts ds))"
    using set_join unfolding format_documents_def by blast
  then show ?thesis
    by (auto simp: structural_def dest: format_texts_clean)
qed

lemma format_documents_Cons:
  "format_documents (d # ds) =
     content_of d @ [CHR 0x0A] @ ''---'' @ (if ds = [] then [] else [CHR 0x0A] @ format_documents ds)"
  by (cases ds) (simp_all add: format_documents_def format_texts_Cons format_texts_Nil)

lemma split_lines_ne: "split_lines s \<noteq> []"
  by (induction s) (auto split: list.splits)

lemma split_lines_append:
  "split_lines (a @ CHR 0x0A # b) = split_lines a @ split_lines b"
  by (induction a) (auto split: list.splits simp: split_lines_ne)

lemma join_split_lines: "join [CHR 0x0A] (split_lines s) = s"
proof (induction s)
  case Nil show ?case by simp
next
  case (Cons c cs)
  then show ?case
    by (cases "split_lines cs"; cases "tl (split_lines cs)") (auto simp: split_lines_ne)
qed


lemma split_lines_join_texts:
  "ds \<noteq> [] \<Longrightarrow> split_lines (format_documents ds) =
     concat (map (\<lambda>d. split_lines (content_of d) @ [''---'']) ds)"
proof (induction ds)
  case Nil then show ?case by simp
next
  case (Cons d ds)
  have sl: "split_lines ''---'' = [''---'']" by simp
  show ?case
  proof (cases "ds = []")
    case True
    then show ?thesis
      by (simp add: format_documents_Cons split_lines_append del: split_lines.simps) (simp)
  next
    case False
    with Cons have IH: "split_lines (format_documents ds) =
       concat (map (\<lambda>d. split_lines (content_of d) @ [''---'']) ds)" by simp
    have "format_documents (d # ds) = content_of d @ CHR 0x0A # (''---'' @ CHR 0x0A # format_documents ds)"
      using False by (simp add: format_documents_Cons)
    then have "split_lines (format_documents (d # ds)) =
        split_lines (content_of d) @ split_lines ''---'' @ split_lines (format_documents ds)"
      by (simp only: split_lines_append)
    then show ?thesis using IH sl by simp
  qed
qed

lemma first_delim_unique:
  "s \<notin> set a \<Longrightarrow> s \<notin> set b \<Longrightarrow> a @ s # r = b @ s # r' \<Longrightarrow> a = b \<and> r = r'"
proof (induction a arbitrary: b)
  case Nil
  then show ?case by (cases b) auto
next
  case (Cons x a)
  then show ?case by (cases b) auto
qed

lemma blocks_inj:
  "\<forall>x \<in> set xs. s \<notin> set (f x) \<Longrightarrow> \<forall>y \<in> set ys. s \<notin> set (f y) \<Longrightarrow>
   concat (map (\<lambda>x. f x @ [s]) xs) = concat (map (\<lambda>y. f y @ [s]) ys) \<Longrightarrow>
   map f xs = map f ys"
proof (induction xs arbitrary: ys)
  case Nil
  have "ys = []"
  proof (cases ys)
    case (Cons y ys')
    with Nil(3) show ?thesis by simp
  qed simp
  then show ?case by simp
next
  case (Cons x xs)
  have "ys \<noteq> []" using Cons.prems(3) by auto
  then obtain y ys' where ys: "ys = y # ys'" by (cases ys) simp_all
  have eq: "f x @ s # concat (map (\<lambda>x. f x @ [s]) xs) = f y @ s # concat (map (\<lambda>y. f y @ [s]) ys')"
    using Cons.prems(3) unfolding ys by simp
  have nx: "s \<notin> set (f x)" using Cons.prems(1) by simp
  have ny: "s \<notin> set (f y)" using Cons.prems(2) unfolding ys by simp
  have both: "f x = f y \<and> concat (map (\<lambda>x. f x @ [s]) xs) = concat (map (\<lambda>y. f y @ [s]) ys')"
    by (rule first_delim_unique [OF nx ny eq])
  have "map f xs = map f ys'"
  proof (rule Cons.IH)
    show "\<forall>x \<in> set xs. s \<notin> set (f x)" using Cons.prems(1) by simp
    show "\<forall>y \<in> set ys'. s \<notin> set (f y)" using Cons.prems(2) unfolding ys by simp
    show "concat (map (\<lambda>x. f x @ [s]) xs) = concat (map (\<lambda>y. f y @ [s]) ys')" using both by simp
  qed
  then show ?case using both unfolding ys by simp
qed

lemma split_lines_inj: "split_lines a = split_lines b \<Longrightarrow> a = b"
  by (metis join_split_lines)

lemma format_documents_empty_iff: "format_documents ds = [] \<longleftrightarrow> ds = []"
proof (cases ds)
  case Nil
  then show ?thesis by (simp add: format_documents_def format_texts_Nil)
next
  case (Cons d ds')
  then show ?thesis by (simp add: format_documents_Cons)
qed

lemma format_documents_inj:
  assumes "\<forall>d \<in> set ds. delimiter_free d" "\<forall>d \<in> set ds'. delimiter_free d"
    and eq: "format_documents ds = format_documents ds'"
  shows "map content_of ds = map content_of ds'"
proof (cases "ds = []")
  case True
  then show ?thesis using eq format_documents_empty_iff [of ds'] 
    by (simp add: format_documents_def format_texts_Nil)
next
  case False
  then have ne': "ds' \<noteq> []" using eq format_documents_empty_iff [of ds] format_documents_empty_iff [of ds'] 
    by auto
  have "concat (map (\<lambda>d. split_lines (content_of d) @ [''---'']) ds) =
        concat (map (\<lambda>d. split_lines (content_of d) @ [''---'']) ds')"
    using split_lines_join_texts [OF False] split_lines_join_texts [OF ne'] eq by simp
  then have "map (\<lambda>d. split_lines (content_of d)) ds = map (\<lambda>d. split_lines (content_of d)) ds'"
    using assms(1,2) blocks_inj [of ds "''---''" "\<lambda>d. split_lines (content_of d)" ds']
    by (simp add: delimiter_free_def)
  then have "map split_lines (map content_of ds) = map split_lines (map content_of ds')"
    by (simp add: comp_def)
  then show ?thesis
    using split_lines_inj by (metis inj_onI inj_map_eq_map)
qed


text \<open>
  Claim C5, as the code has it. \<open>format_documents\<close> is a function of its argument
  alone. On no passage it returns the empty string. For every list of passages its result
  holds none of the characters \<open>{\<close>, \<open>}\<close>, \<open>[\<close>, \<open>]\<close>. The passages' cleaned texts
  stand in the result in the order of the list, each followed by the fixed line \<open>---\<close>.
  The delimiter tells the passages apart only when no cleaned text has a line
  \<open>---\<close> of its own: among such lists, the result determines the cleaned texts.
\<close>

theorem format_documents_contract:
  "format_documents [] = []
   \<and> (\<forall>c \<in> set (format_documents ds).
         c \<noteq> CHR ''{'' \<and> c \<noteq> CHR ''}'' \<and> c \<noteq> CHR ''['' \<and> c \<noteq> CHR '']'')
   \<and> format_documents (d # ds) =
         content_of d @ [CHR 0x0A] @ ''---'' @
         (if ds = [] then [] else [CHR 0x0A] @ format_documents ds)
   \<and> ((\<forall>x \<in> set ds. delimiter_free x) \<and> (\<forall>x \<in> set ds'. delimiter_free x)
        \<and> format_documents ds = format_documents ds'
        \<longrightarrow> map content_of ds = map content_of ds')"
proof -
  have "\<forall>c \<in> set (format_documents ds).
          c \<noteq> CHR ''{'' \<and> c \<noteq> CHR ''}'' \<and> c \<noteq> CHR ''['' \<and> c \<noteq> CHR '']''"
    using format_documents_clean [of _ ds] by (auto simp: structural_def)
  moreover have "format_documents [] = []"
    by (simp add: format_documents_def format_texts_Nil)
  ultimately show ?thesis
    using format_documents_Cons [of d ds] format_documents_inj [of ds ds'] by blast
qed

theorem format_documents_contract_witness:
  "format_documents [\<lparr>page_content = '' {a}[b] '', metadata = []\<rparr>,
                     \<lparr>page_content = ''c'', metadata = []\<rparr>]
     = ''ab'' @ [CHR 0x0A] @ ''---'' @ [CHR 0x0A] @ ''c'' @ [CHR 0x0A] @ ''---''
   \<and> map content_of [\<lparr>page_content = ''c'', metadata = []\<rparr>]
     = map content_of [\<lparr>page_content = '' [c] '', metadata = []\<rparr>]"
proof -
  have c: "content_of \<lparr>page_content = ''c'', metadata = []\<rparr> = ''c''"
    by (simp add: content_of_def re_sub_structural_def structural_def strip_def isspace_def)
  have c': "content_of \<lparr>page_content = '' [c] '', metadata = []\<rparr> = ''c''"
    by (simp add: content_of_def re_sub_structural_def structural_def strip_def isspace_def)
  have ab: "content_of \<lparr>page_content = '' {a}[b] '', metadata = []\<rparr> = ''ab''"
    by (simp add: content_of_def re_sub_structural_def structural_def strip_def isspace_def)
  have free: "\<forall>x \<in> set [\<lparr>page_content = ''c'', metadata = []\<rparr>]. delimiter_free x"
       "\<forall>x \<in> set [\<lparr>page_content = '' [c] '', metadata = []\<rparr>]. delimiter_free x"
    by (simp_all add: delimiter_free_def c c')
  have same: "format_documents [\<lparr>page_content = ''c'', metadata = []\<rparr>]
            = format_documents [\<lparr>page_content = '' [c] '', metadata = []\<rparr>]"
    by (simp add: format_documents_def format_texts_def c c')
  have one: "format_documents [\<lparr>page_content = ''c'', metadata = []\<rparr>]
            = ''c'' @ [CHR 0x0A] @ ''---''"
    by (simp add: format_documents_def format_texts_def c)
  show ?thesis
    using format_documents_contract
      [of "[\<lparr>page_content = ''c'', metadata = []\<rparr>]"
          "\<lparr>page_content = '' {a}[b] '', metadata = []\<rparr>"
          "[\<lparr>page_content = '' [c] '', metadata = []\<rparr>]"]
      free same one ab
    by simp
qed

text \<open>
  The delimiter is not unambiguous: a passage whose text has a line \<open>---\<close> is
  formatted as two passages are, though the cleaned texts differ.
\<close>

theorem format_documents_delimiter_counterexample:
  "format_documents [\<lparr>page_content = ''a'' @ [CHR 0x0A] @ ''---'' @ [CHR 0x0A] @ ''b'',
                      metadata = []\<rparr>]
     = format_documents [\<lparr>page_content = ''a'', metadata = []\<rparr>,
                         \<lparr>page_content = ''b'', metadata = []\<rparr>]
   \<and> map content_of [\<lparr>page_content = ''a'' @ [CHR 0x0A] @ ''---'' @ [CHR 0x0A] @ ''b'',
                        metadata = []\<rparr>]
     \<noteq> map content_of [\<lparr>page_content = ''a'', metadata = []\<rparr>,
                          \<lparr>page_content = ''b'', metadata = []\<rparr>]"
  by (simp add: format_documents_def format_texts_def content_of_def re_sub_structural_def
        structural_def strip_def isspace_def)

section \<open>Properties of the session manager\<close>

lemma clean_sessions:
  "sessions (clean_expired_sessions st t) k =
     (case sessions st k of None \<Rightarrow> None
      | Some d \<Rightarrow> if t - last_accessed d > session_timeout st then None else Some d)"
  by (simp add: clean_expired_sessions_def expired_sessions_def split: option.splits)

lemma clean_frame:
  "heap (clean_expired_sessions st t) = heap st"
  "next_addr (clean_expired_sessions st t) = next_addr st"
  "session_timeout (clean_expired_sessions st t) = session_timeout st"
  by (simp_all add: clean_expired_sessions_def)

lemma gsh_timeout:
  "get_session_history st s t t' = (h, st') \<Longrightarrow> session_timeout st' = session_timeout st"
  by (auto simp: get_session_history_def Let_def clean_frame split: option.splits)

lemma gsh_absent:
  assumes "sessions (clean_expired_sessions st t') s = None"
  shows "get_session_history st s t t' =
     (next_addr st,
      (clean_expired_sessions st t')\<lparr>sessions := (sessions (clean_expired_sessions st t'))(s \<mapsto>
           \<lparr>history = next_addr st, created_at = t, last_accessed = t\<rparr>),
         heap := (heap st)(next_addr st := []), next_addr := Suc (next_addr st)\<rparr>)"
  using assms by (simp add: get_session_history_def Let_def clean_frame)

lemma gsh_present:
  assumes "sessions (clean_expired_sessions st t') s = Some d"
  shows "get_session_history st s t t' =
     (history d,
      (clean_expired_sessions st t')\<lparr>sessions := (sessions (clean_expired_sessions st t'))(s \<mapsto>
           d\<lparr>last_accessed := t\<rparr>)\<rparr>)"
  using assms by (simp add: get_session_history_def Let_def)

lemma gsh_sessions_self:
  assumes "get_session_history st s t t' = (h, st')"
  shows "\<exists>d. sessions st' s = Some d \<and> history d = h \<and> last_accessed d = t"
proof (cases "sessions (clean_expired_sessions st t') s")
  case None
  from gsh_absent [OF None, of t] assms show ?thesis by auto
next
  case (Some d)
  from gsh_present [OF Some, of t] assms show ?thesis by auto
qed

lemma gsh_sessions_other:
  assumes "get_session_history st s t t' = (h, st')" "k \<noteq> s"
  shows "sessions st' k = sessions (clean_expired_sessions st t') k"
proof (cases "sessions (clean_expired_sessions st t') s")
  case None
  from gsh_absent [OF None, of t] assms show ?thesis by auto
next
  case (Some d)
  from gsh_present [OF Some, of t] assms show ?thesis by auto
qed

lemma gsh_handles_allocated:
  assumes "get_session_history st s t t' = (h, st')" "handles_allocated st"
  shows "handles_allocated st'"
proof (cases "sessions (clean_expired_sessions st t') s")
  case None
  have "\<And>k d. sessions (clean_expired_sessions st t') k = Some d \<Longrightarrow> history d < next_addr st"
    using assms(2) by (auto simp: handles_allocated_def clean_sessions split: option.splits if_splits)
  then show ?thesis
    using gsh_absent [OF None, of t] assms(1)
    by (auto simp: handles_allocated_def less_Suc_eq)
next
  case (Some d)
  have *: "\<And>k d. sessions (clean_expired_sessions st t') k = Some d \<Longrightarrow> history d < next_addr st"
    using assms(2) by (auto simp: handles_allocated_def clean_sessions split: option.splits if_splits)
  show ?thesis
    using gsh_present [OF Some, of t] assms(1) * [OF Some] *
    by (auto simp: handles_allocated_def clean_frame)
qed


lemma init_handles_allocated: "handles_allocated SessionManager_init"
  by (simp add: handles_allocated_def SessionManager_init_def)

lemma add_messages_handles_allocated:
  "handles_allocated st \<Longrightarrow> handles_allocated (add_messages st a msgs)"
  by (simp add: handles_allocated_def add_messages_def)

lemma add_messages_frame:
  "sessions (add_messages st a msgs) = sessions st"
  "session_timeout (add_messages st a msgs) = session_timeout st"
  "next_addr (add_messages st a msgs) = next_addr st"
  "heap (add_messages st a msgs) a = heap st a @ msgs"
  by (simp_all add: add_messages_def)

lemma gsh_heap_present:
  assumes "sessions (clean_expired_sessions st t') s = Some d"
    and "get_session_history st s t t' = (h, st')"
  shows "h = history d" "heap st' = heap st"
  using gsh_present [OF assms(1), of t] assms(2) by (auto simp: clean_frame)

text \<open>
  Claim C2. Two sequential calls of \<open>get_session_history\<close> with the same id, the second
  one sweeping within the timeout of the first one's access, return the same history
  object: the messages added through the first handle between the calls are read
  through the second.
\<close>

theorem session_identity:
  assumes first: "get_session_history st s t1 t1' = (h1, st1)"
    and second: "get_session_history (add_messages st1 h1 msgs) s t2 t2' = (h2, st2)"
    and window: "t2' - t1 \<le> session_timeout st"
  shows "h2 = h1 \<and> messages st2 h2 = messages st1 h1 @ msgs"
proof -
  obtain d where d: "sessions st1 s = Some d" "history d = h1" "last_accessed d = t1"
    using gsh_sessions_self [OF first] by blast
  have tmo: "session_timeout st1 = session_timeout st"
    by (rule gsh_timeout [OF first])
  let ?st = "add_messages st1 h1 msgs"
  have kept: "sessions (clean_expired_sessions ?st t2') s = Some d"
    using d window tmo by (simp add: clean_sessions add_messages_frame)
  have "h2 = history d" "heap st2 = heap ?st"
    using gsh_heap_present [OF kept second] by simp_all
  then show ?thesis
    using d by (simp add: messages_def add_messages_frame)
qed

text \<open>
  Claim C3. The sweep that every access runs removes exactly the stale entries. An entry
  whose \<open>last_accessed\<close> is more than the timeout before the sweep's clock is gone from
  the dictionary the lookup sees; after the access its id is absent, or, when it is the
  id being accessed, bound to a session created at this call. An entry within the
  timeout survives with its history, its \<open>last_accessed\<close> refreshed when it is the id
  being accessed.
\<close>

theorem expiry_sweep:
  assumes entry: "sessions st k = Some d"
    and access: "get_session_history st s t t' = (h, st')"
  shows "(t' - last_accessed d > session_timeout st \<longrightarrow>
            sessions (clean_expired_sessions st t') k = None
          \<and> (k \<noteq> s \<longrightarrow> sessions st' k = None)
          \<and> (k = s \<longrightarrow> sessions st' k =
                 Some \<lparr>history = next_addr st, created_at = t, last_accessed = t\<rparr>))
       \<and> (t' - last_accessed d \<le> session_timeout st \<longrightarrow>
            sessions (clean_expired_sessions st t') k = Some d
          \<and> (k \<noteq> s \<longrightarrow> sessions st' k = Some d)
          \<and> (k = s \<longrightarrow> sessions st' k = Some (d\<lparr>last_accessed := t\<rparr>)))"
proof (cases "t' - last_accessed d > session_timeout st")
  case True
  have gone: "sessions (clean_expired_sessions st t') k = None"
    using entry True by (simp add: clean_sessions)
  have other: "k \<noteq> s \<Longrightarrow> sessions st' k = None"
    using gsh_sessions_other [OF access] gone by simp
  have self: "k = s \<Longrightarrow> sessions st' k =
      Some \<lparr>history = next_addr st, created_at = t, last_accessed = t\<rparr>"
    using gsh_absent [of st t' s t] gone access by auto
  show ?thesis using True gone other self by simp
next
  case False
  have kept: "sessions (clean_expired_sessions st t') k = Some d"
    using entry False by (simp add: clean_sessions)
  have other: "k \<noteq> s \<Longrightarrow> sessions st' k = Some d"
    using gsh_sessions_other [OF access] kept by simp
  have self: "k = s \<Longrightarrow> sessions st' k = Some (d\<lparr>last_accessed := t\<rparr>)"
    using gsh_present [of st t' s d t] kept access by auto
  show ?thesis using False kept other self by simp
qed

text \<open>
  Claim C9. \<open>get_session_info\<close> returns the creation time, the last access time and the
  number of messages of a present session and \<open>None\<close> for an absent one, and the state
  it leaves is the state it was called in: no \<open>last_accessed\<close> is updated, no entry is
  swept, no history changes.
\<close>

theorem get_session_info_read_only:
  "get_session_info st s =
     ((case sessions st s of
         None \<Rightarrow> None
       | Some d \<Rightarrow> Some \<lparr>info_created_at = created_at d,
                          info_last_accessed = last_accessed d,
                          info_message_count = length (messages st (history d))\<rparr>), st)"
  by (simp add: get_session_info_def messages_def split: option.splits)

text \<open>
  Claim C10. After \<open>get_session_history\<close>, every entry of the dictionary is within the
  timeout of the sweep's clock (the two clock readings of the call being at most the
  timeout apart). When the entry of the accessed id was stale, the handle returned is a
  new address, not the stale entry's, its history is empty, and the entry's
  \<open>created_at\<close> and \<open>last_accessed\<close> are the call's \<open>current_time\<close>.
\<close>

theorem no_stale_session_after_access:
  assumes access: "get_session_history st s t t' = (h, st')"
    and reads: "t' - t \<le> session_timeout st"
    and wf: "handles_allocated st"
  shows "(\<forall>k d. sessions st' k = Some d \<longrightarrow> t' - last_accessed d \<le> session_timeout st')
       \<and> (\<forall>d. sessions st s = Some d \<and> t' - last_accessed d > session_timeout st \<longrightarrow>
              h \<noteq> history d \<and> messages st' h = []
            \<and> sessions st' s = Some \<lparr>history = h, created_at = t, last_accessed = t\<rparr>)"
proof -
  have tmo: "session_timeout st' = session_timeout st"
    by (rule gsh_timeout [OF access])
  have fresh: "t' - last_accessed d \<le> session_timeout st'" if "sessions st' k = Some d" for k d
  proof (cases "k = s")
    case True
    then show ?thesis using gsh_sessions_self [OF access] that reads tmo by auto
  next
    case False
    then have "sessions (clean_expired_sessions st t') k = Some d"
      using gsh_sessions_other [OF access] that by simp
    then show ?thesis using tmo
      by (auto simp: clean_sessions split: option.splits if_splits)
  qed
  have stale: "h \<noteq> history d \<and> messages st' h = []
      \<and> sessions st' s = Some \<lparr>history = h, created_at = t, last_accessed = t\<rparr>"
    if "sessions st s = Some d" "t' - last_accessed d > session_timeout st" for d
  proof -
    have gone: "sessions (clean_expired_sessions st t') s = None"
      using that by (simp add: clean_sessions)
    have "history d < next_addr st" using wf that(1) by (auto simp: handles_allocated_def)
    then show ?thesis
      using gsh_absent [OF gone, of t] access by (auto simp: messages_def)
  qed
  show ?thesis using fresh stale by blast
qed


theorem session_identity_witness:
  "(5::int) - 0 \<le> session_timeout SessionManager_init
   \<and> fst (get_session_history
            (add_messages (snd (get_session_history SessionManager_init ''s'' 0 0))
               (fst (get_session_history SessionManager_init ''s'' 0 0)) [HumanMessage ''q''])
            ''s'' 5 5)
       = fst (get_session_history SessionManager_init ''s'' 0 0)
   \<and> messages
         (snd (get_session_history
            (add_messages (snd (get_session_history SessionManager_init ''s'' 0 0))
               (fst (get_session_history SessionManager_init ''s'' 0 0)) [HumanMessage ''q''])
            ''s'' 5 5))
         (fst (get_session_history SessionManager_init ''s'' 0 0))
       = [HumanMessage ''q'']"
proof -
  let ?r1 = "get_session_history SessionManager_init ''s'' 0 0"
  let ?r2 = "get_session_history (add_messages (snd ?r1) (fst ?r1) [HumanMessage ''q'']) ''s'' 5 5"
  have w: "(5::int) - 0 \<le> session_timeout SessionManager_init"
    by (simp add: SessionManager_init_def)
  have m: "messages (snd ?r1) (fst ?r1) = []"
    by (simp add: SessionManager_init_def get_session_history_def clean_expired_sessions_def
          expired_sessions_def messages_def Let_def)
  have c: "fst ?r2 = fst ?r1 \<and> messages (snd ?r2) (fst ?r2) = messages (snd ?r1) (fst ?r1) @ [HumanMessage ''q'']"
    by (rule session_identity [OF _ _ w]) simp_all
  from c have e1: "fst ?r2 = fst ?r1" ..
  from c have e2: "messages (snd ?r2) (fst ?r2) = messages (snd ?r1) (fst ?r1) @ [HumanMessage ''q'']" ..
  have e3: "messages (snd ?r2) (fst ?r1) = [HumanMessage ''q'']"
    using e2 unfolding e1 m by simp
  show ?thesis using w e1 e3 by blast
qed

theorem expiry_sweep_witness:
  "sessions example_state ''old'' = Some \<lparr>history = 0, created_at = 0, last_accessed = 0\<rparr>
   \<and> sessions (snd (get_session_history example_state ''new'' 3600000001 3600000001)) ''old'' = None
   \<and> sessions (snd (get_session_history example_state ''new'' 3600000001 3600000001)) ''new''
       = Some \<lparr>history = 1, created_at = 3600000000, last_accessed = 3600000001\<rparr>"
proof -
  let ?r = "get_session_history example_state ''new'' 3600000001 3600000001"
  have a: "?r = (fst ?r, snd ?r)" by simp
  have old: "sessions example_state ''old'' = Some \<lparr>history = 0, created_at = 0, last_accessed = 0\<rparr>"
    by (simp add: example_state_def)
  have new: "sessions example_state ''new'' =
      Some \<lparr>history = 1, created_at = 3600000000, last_accessed = 3600000000\<rparr>"
    by (simp add: example_state_def)
  have tmo: "session_timeout example_state = 3600000000"
    by (simp add: example_state_def)
  show ?thesis
    using expiry_sweep [OF old a] expiry_sweep [OF new a] old tmo by simp
qed

theorem no_stale_session_after_access_witness:
  "handles_allocated example_state
   \<and> (3600000001::int) - 3600000001 \<le> session_timeout example_state
   \<and> fst (get_session_history example_state ''old'' 3600000001 3600000001) \<noteq> 0
   \<and> messages (snd (get_session_history example_state ''old'' 3600000001 3600000001))
        (fst (get_session_history example_state ''old'' 3600000001 3600000001)) = []
   \<and> sessions (snd (get_session_history example_state ''old'' 3600000001 3600000001)) ''old''
       = Some \<lparr>history = fst (get_session_history example_state ''old'' 3600000001 3600000001),
               created_at = 3600000001, last_accessed = 3600000001\<rparr>"
proof -
  let ?r = "get_session_history example_state ''old'' 3600000001 3600000001"
  have a: "?r = (fst ?r, snd ?r)" by simp
  have wf: "handles_allocated example_state"
    by (auto simp: handles_allocated_def example_state_def split: if_splits)
  have tmo: "session_timeout example_state = 3600000000"
    by (simp add: example_state_def)
  have reads: "(3600000001::int) - 3600000001 \<le> session_timeout example_state"
    by (simp add: tmo)
  have old: "sessions example_state ''old'' = Some \<lparr>history = 0, created_at = 0, last_accessed = 0\<rparr>"
    by (simp add: example_state_def)
  have tmo': "session_timeout (snd ?r) = 3600000000"
    using gsh_timeout [OF a] tmo by simp
  show ?thesis
    using no_stale_session_after_access [OF a reads wf] wf reads old tmo tmo' by simp
qed

section \<open>Properties of ask_question, create_chain and create_retriever\<close>

lemma on_event_simps:
  "on_event on_chain_start = ([], None)"
  "on_event on_retriever_start = ([], None)"
  "on_event (on_retriever_end docs) = ([Documents docs], None)"
  "on_event (on_chain_stream c) = ([Str c], None)"
  "on_event on_chain_end = ([], None)"
  by (simp_all add: on_event_def on_chain_start_def on_retriever_start_def on_retriever_end_def
        on_chain_stream_def on_chain_end_def getitem_def)

lemma try_block_chunks:
  "try_block (map on_chain_stream chunks @ evs) fin =
     (map Str chunks @ fst (try_block evs fin), snd (try_block evs fin))"
  by (induction chunks) (simp_all add: on_event_simps split: prod.splits)




lemma ask_question_error:
  "chain q s st = ((evs, fin), st') \<Longrightarrow> try_block evs fin = (ys, Some e) \<Longrightarrow>
   ask_question chain q s st = ((ys @ [Str (''Error processing question: '' @ str_exn e)], None), st')"
  by (simp add: ask_question_def)

lemma ask_question_ok:
  "chain q s st = ((evs, fin), st') \<Longrightarrow> try_block evs fin = (ys, None) \<Longrightarrow>
   ask_question chain q s st = ((ys, None), st')"
  by (simp add: ask_question_def)

lemma create_chain_retrieval_fails:
  assumes "get_session_history st s t t' = (h, st1)" "retriever q = Inl e"
  shows "ask_question (create_chain llm retriever t t') q s st =
           (([Str (''Error processing question: '' @ str_exn e)], None), st1)"
proof -
  have c: "create_chain llm retriever t t' q s st =
      (([on_chain_start, on_retriever_start], Raised e), st1)"
    using assms by (simp add: create_chain_def)
  have "try_block [on_chain_start, on_retriever_start] (Raised e) = ([], Some e)"
    by (simp add: on_event_simps)
  from ask_question_error [of "create_chain llm retriever t t'" q s st, OF c this] show ?thesis by simp
qed

lemma create_chain_generation_fails:
  assumes "get_session_history st s t t' = (h, st1)" "retriever q = Inr docs"
    and "llm (prompt (format_documents docs) (messages st1 h) q) = (chunks, Some e)"
  shows "ask_question (create_chain llm retriever t t') q s st =
           ((Documents docs # map Str chunks @ [Str (''Error processing question: '' @ str_exn e)],
             None), st1)"
proof -
  have c: "create_chain llm retriever t t' q s st =
      (([on_chain_start, on_retriever_start, on_retriever_end docs] @ map on_chain_stream chunks,
        Raised e), st1)"
    using assms by (simp add: create_chain_def)
  have "try_block ([on_chain_start, on_retriever_start, on_retriever_end docs]
           @ map on_chain_stream chunks) (Raised e) = (Documents docs # map Str chunks, Some e)"
    using try_block_chunks [of chunks "[]" "Raised e"] by (simp add: on_event_simps)
  from ask_question_error [of "create_chain llm retriever t t'" q s st, OF c this] show ?thesis by simp
qed

lemma create_chain_succeeds:
  assumes "get_session_history st s t t' = (h, st1)" "retriever q = Inr docs"
    and "llm (prompt (format_documents docs) (messages st1 h) q) = (chunks, None)"
  shows "ask_question (create_chain llm retriever t t') q s st =
           ((Documents docs # map Str chunks, None),
            add_messages st1 h [HumanMessage q, AIMessage (concat chunks)])"
proof -
  have c: "create_chain llm retriever t t' q s st =
      (([on_chain_start, on_retriever_start, on_retriever_end docs] @ map on_chain_stream chunks
          @ [on_chain_end], Exhausted),
       add_messages st1 h [HumanMessage q, AIMessage (concat chunks)])"
    using assms by (simp add: create_chain_def)
  have "try_block ([on_chain_start, on_retriever_start, on_retriever_end docs]
           @ map on_chain_stream chunks @ [on_chain_end]) Exhausted
         = (Documents docs # map Str chunks, None)"
    using try_block_chunks [of chunks "[on_chain_end]" Exhausted] by (simp add: on_event_simps)
  from ask_question_ok [of "create_chain llm retriever t t'" q s st, OF c this] show ?thesis by simp
qed

lemma full_response_chunks: "full_response (Documents docs # map Str chunks) = concat chunks"
proof -
  have "filter is_str (map Str chunks) = map Str chunks" by (induction chunks) simp_all
  moreover have "map str_of (map Str chunks) = chunks" by (induction chunks) simp_all
  ultimately show ?thesis by (simp add: full_response_def)
qed

lemma filter_documents_chunks: "filter is_documents (map Str chunks) = []"
  by (induction chunks) simp_all

lemma filter_str_chunks: "filter is_str (map Str chunks) = map Str chunks"
  by (induction chunks) simp_all

text \<open>
  Claim C1. For a successful call of \<open>ask_question\<close> on the chain of \<open>create_chain\<close>
  (the retriever returns documents and the model's stream completes), the values
  yielded are one list of documents followed by the answer chunks in the order the model
  produced them, the generator returns, and the strings yielded, joined in order, are
  the answer appended to the session's history after the question.
\<close>

theorem ask_event_ordering:
  assumes resolve: "get_session_history st s t t' = (h, st1)"
    and retrieved: "retriever q = Inr docs"
    and generated: "llm (prompt (format_documents docs) (messages st1 h) q) = (chunks, None)"
    and asked: "ask_question (create_chain llm retriever t t') q s st = ((ys, r), st2)"
  shows "r = None
       \<and> ys = Documents docs # map Str chunks
       \<and> filter is_documents ys = [Documents docs]
       \<and> filter is_str ys = map Str chunks
       \<and> messages st2 h = messages st1 h @ [HumanMessage q, AIMessage (full_response ys)]"
proof -
  have eq: "((ys, r), st2) = ((Documents docs # map Str chunks, None),
      add_messages st1 h [HumanMessage q, AIMessage (concat chunks)])"
    using create_chain_succeeds [OF resolve, of retriever q docs llm chunks] retrieved generated asked by simp
  then have ys: "ys = Documents docs # map Str chunks" and r: "r = None"
    and st2: "st2 = add_messages st1 h [HumanMessage q, AIMessage (concat chunks)]"
    by simp_all
  have "messages st2 h = messages st1 h @ [HumanMessage q, AIMessage (concat chunks)]"
    by (simp add: st2 messages_def add_messages_frame)
  then show ?thesis
    by (simp add: ys r full_response_chunks filter_documents_chunks filter_str_chunks)
qed

lemma gsh_fresh:
  assumes "sessions st s = None"
  shows "get_session_history st s t t' =
     (next_addr st,
      (clean_expired_sessions st t')\<lparr>sessions := (sessions (clean_expired_sessions st t'))(s \<mapsto>
           \<lparr>history = next_addr st, created_at = t, last_accessed = t\<rparr>),
         heap := (heap st)(next_addr st := []), next_addr := Suc (next_addr st)\<rparr>)"
  by (rule gsh_absent) (simp add: clean_sessions assms)

lemma gsh_heap_old:
  assumes "get_session_history st s t t' = (h, st1)" "a < next_addr st"
  shows "messages st1 a = messages st a"
proof (cases "sessions (clean_expired_sessions st t') s")
  case None
  from gsh_absent [OF None, of t] assms show ?thesis by (auto simp: messages_def)
next
  case (Some d)
  from gsh_present [OF Some, of t] assms show ?thesis by (auto simp: messages_def clean_frame)
qed

text \<open>
  Claim C6. On a session id the store does not hold, two successful calls of
  \<open>ask_question\<close>, the second within the timeout of the first, leave exactly four
  messages in the session's history: the first question, its answer, the second
  question, its answer. The prompt of the second call carries the first exchange. The
  append follows the stream: a model whose stream breaks leaves the history empty.
\<close>

theorem history_replay:
  assumes fresh: "sessions st s = None"
    and r1: "retriever q1 = Inr docs1"
    and l1: "llm (prompt (format_documents docs1) [] q1) = (chunks1, None)"
    and a1: "ask_question (create_chain llm retriever t1 t1') q1 s st = (out1, st1)"
    and r2: "retriever q2 = Inr docs2"
    and l2: "llm (prompt (format_documents docs2)
                  [HumanMessage q1, AIMessage (concat chunks1)] q2) = (chunks2, None)"
    and a2: "ask_question (create_chain llm retriever t2 t2') q2 s st1 = (out2, st2)"
    and window: "t2' - t1 \<le> session_timeout st"
  shows "(\<exists>d. sessions st2 s = Some d \<and>
            messages st2 (history d) =
              [HumanMessage q1, AIMessage (concat chunks1),
               HumanMessage q2, AIMessage (concat chunks2)])
       \<and> messages st1 (next_addr st) = [HumanMessage q1, AIMessage (concat chunks1)]
       \<and> (\<forall>llm' chunks e. llm' (prompt (format_documents docs1) [] q1) = (chunks, Some e) \<longrightarrow>
             messages (snd (ask_question (create_chain llm' retriever t1 t1') q1 s st))
               (next_addr st) = [])"
proof -
  let ?h = "next_addr st"
  obtain sta where g1: "get_session_history st s t1 t1' = (?h, sta)"
    using gsh_fresh [OF fresh] by simp
  have empty: "messages sta ?h = []"
    using gsh_fresh [OF fresh, of t1 t1'] g1 by (auto simp: messages_def)
  have st1: "st1 = add_messages sta ?h [HumanMessage q1, AIMessage (concat chunks1)]"
    using create_chain_succeeds [OF g1, of retriever q1 docs1 llm chunks1] r1 l1 a1 empty by simp
  have m1: "messages st1 ?h = [HumanMessage q1, AIMessage (concat chunks1)]"
    using empty by (simp add: st1 messages_def add_messages_frame)
  obtain d where d: "sessions sta s = Some d" "history d = ?h" "last_accessed d = t1"
    using gsh_sessions_self [OF g1] by blast
  have tmo: "session_timeout st1 = session_timeout st"
    using gsh_timeout [OF g1] by (simp add: st1 add_messages_frame)
  have kept: "sessions (clean_expired_sessions st1 t2') s = Some d"
    using d window tmo by (simp add: clean_sessions st1 add_messages_frame)
  obtain stb where g2: "get_session_history st1 s t2 t2' = (?h, stb)"
    using gsh_present [OF kept, of t2] d by simp
  have hb: "heap stb = heap st1"
    using gsh_heap_present [OF kept g2] by simp
  have mb: "messages stb ?h = [HumanMessage q1, AIMessage (concat chunks1)]"
    using m1 hb by (simp add: messages_def)
  have st2: "st2 = add_messages stb ?h [HumanMessage q2, AIMessage (concat chunks2)]"
    using create_chain_succeeds [OF g2, of retriever q2 docs2 llm chunks2] r2 l2 a2 mb by simp
  obtain d2 where d2: "sessions stb s = Some d2" "history d2 = ?h"
    using gsh_sessions_self [OF g2] by blast
  have four: "\<exists>d. sessions st2 s = Some d \<and>
            messages st2 (history d) =
              [HumanMessage q1, AIMessage (concat chunks1),
               HumanMessage q2, AIMessage (concat chunks2)]"
    using d2 mb by (simp add: st2 messages_def add_messages_frame)
  have failing: "messages (snd (ask_question (create_chain llm' retriever t1 t1') q1 s st)) ?h = []"
    if "llm' (prompt (format_documents docs1) [] q1) = (chunks, Some e)" for llm' chunks e
    using create_chain_generation_fails [OF g1, of retriever q1 docs1 llm' chunks e] r1 that empty by simp
  show ?thesis using four m1 failing by blast
qed

text \<open>
  Claim C4, as the code has it. \<open>ask_question\<close> and the chain do not look at the
  question: a blank one reaches the retriever like any other. When the retriever raises
  on it, one event is yielded, the error string, and the messages of every history that
  existed before the call are unchanged; when retrieval and generation succeed, the
  documents and the chunks are yielded and the exchange is appended.
\<close>

theorem ask_question_no_input_validation:
  assumes resolve: "get_session_history st s t t' = (h, st1)"
  shows "(retriever q = Inl e \<longrightarrow>
            ask_question (create_chain llm retriever t t') q s st =
              (([Str (''Error processing question: '' @ str_exn e)], None), st1)
          \<and> (\<forall>a. a < next_addr st \<longrightarrow> messages st1 a = messages st a))
       \<and> (retriever q = Inr docs
            \<and> llm (prompt (format_documents docs) (messages st1 h) q) = (chunks, None) \<longrightarrow>
            ask_question (create_chain llm retriever t t') q s st =
              ((Documents docs # map Str chunks, None),
               add_messages st1 h [HumanMessage q, AIMessage (concat chunks)]))"
  using create_chain_retrieval_fails [OF resolve, of retriever q e llm]
    create_chain_succeeds [OF resolve, of retriever q docs llm chunks]
    gsh_heap_old [OF resolve]
  by blast


lemma rerank_stage_fails:
  "USE_RERANKER cfg \<Longrightarrow> create_reranker env = Inl e \<Longrightarrow>
   rerank_stage cfg env r = (r, [''Warning: Reranker initialization failed: '' @ str_exn e])"
  by (simp add: rerank_stage_def)

lemma filter_stage_fails:
  "USE_CHAIN_FILTER cfg \<Longrightarrow> from_llm env = Inl e \<Longrightarrow>
   filter_stage cfg env r = (r, [''Warning: Chain filter initialization failed: '' @ str_exn e])"
  by (simp add: filter_stage_def)

lemma create_retriever_stages:
  assumes "resolve_vector_store env vector_store = Inr vs"
  shows "create_retriever cfg env vector_store =
     (Inr (fst (filter_stage cfg env (fst (rerank_stage cfg env (VectorStoreRetriever vs (TOP_K cfg)))))),
      snd (rerank_stage cfg env (VectorStoreRetriever vs (TOP_K cfg)))
      @ snd (filter_stage cfg env (fst (rerank_stage cfg env (VectorStoreRetriever vs (TOP_K cfg))))))"
  using assms by (simp add: create_retriever_def split: prod.splits)

lemma create_retriever_no_store:
  assumes "resolve_vector_store env vector_store = Inl e"
  shows "create_retriever cfg env vector_store =
     (Inl (RetrieverError (''Failed to create retriever: '' @ str_exn e)), [])"
  using assms by (simp add: create_retriever_def)

lemma resolve_vector_store_falsy:
  "\<not> truth_value env vs \<Longrightarrow> resolve_vector_store env (Some vs) = from_existing_collection env"
  by (simp add: resolve_vector_store_def)

lemma rerank_stage_succeeds:
  "USE_RERANKER cfg \<Longrightarrow> create_reranker env = Inr c \<Longrightarrow>
   rerank_stage cfg env r = (ContextualCompressionRetriever c r, [])"
  by (simp add: rerank_stage_def)

lemma filter_stage_succeeds:
  "USE_CHAIN_FILTER cfg \<Longrightarrow> from_llm env = Inr c \<Longrightarrow>
   filter_stage cfg env r = (ContextualCompressionRetriever c r, [])"
  by (simp add: filter_stage_def)

lemma ask_over_retriever:
  assumes "invoke search compress r q = Inr docs"
    and "llm (prompt (format_documents docs)
              (messages (snd (get_session_history st s t t'))
                        (fst (get_session_history st s t t'))) q) = (chunks, None)"
  shows "fst (ask_question (create_chain llm (invoke search compress r) t t') q s st)
           = (Documents docs # map Str chunks, None)"
proof -
  have g: "get_session_history st s t t' =
      (fst (get_session_history st s t t'), snd (get_session_history st s t t'))" by simp
  show ?thesis
    using create_chain_succeeds [OF g, of "invoke search compress r" q docs llm chunks] assms
    by simp
qed

text \<open>
  Claim C8. With a vector store at hand (the argument when it tests true, the opened
  collection otherwise), \<open>create_retriever\<close> returns a retriever whatever the optional
  stages do, never a \<open>RetrieverError\<close>. A reranker or chain filter that raises is
  reported by a printed warning and the retriever of the stage before is kept: the
  result is built from the stages that succeeded. A call of \<open>ask_question\<close> over the
  returned retriever, whichever stages failed, yields the documents it retrieves and
  the answer chunks, with no error string; with every enabled stage failing these are
  the documents of the plain search of the vector store.
\<close>

theorem create_retriever_degrades:
  assumes store: "resolve_vector_store env vector_store = Inr vs"
    and made: "create_retriever cfg env vector_store = (res, out)"
  shows "(\<exists>r. res = Inr r)
       \<and> (USE_RERANKER cfg \<and> create_reranker env = Inl e \<longrightarrow>
            rerank_stage cfg env (VectorStoreRetriever vs (TOP_K cfg)) =
              (VectorStoreRetriever vs (TOP_K cfg),
               [''Warning: Reranker initialization failed: '' @ str_exn e])
          \<and> (''Warning: Reranker initialization failed: '' @ str_exn e) \<in> set out)
       \<and> (USE_CHAIN_FILTER cfg \<and> from_llm env = Inl e' \<longrightarrow>
            res = Inr (fst (rerank_stage cfg env (VectorStoreRetriever vs (TOP_K cfg))))
          \<and> (''Warning: Chain filter initialization failed: '' @ str_exn e') \<in> set out)
       \<and> (USE_RERANKER cfg \<and> create_reranker env = Inl e
            \<and> USE_CHAIN_FILTER cfg \<and> from_llm env = Inr c \<longrightarrow>
            res = Inr (ContextualCompressionRetriever c (VectorStoreRetriever vs (TOP_K cfg))))
       \<and> (USE_RERANKER cfg \<and> create_reranker env = Inr c
            \<and> USE_CHAIN_FILTER cfg \<and> from_llm env = Inl e' \<longrightarrow>
            res = Inr (ContextualCompressionRetriever c (VectorStoreRetriever vs (TOP_K cfg))))
       \<and> ((USE_RERANKER cfg \<longrightarrow> create_reranker env = Inl e)
            \<and> (USE_CHAIN_FILTER cfg \<longrightarrow> from_llm env = Inl e') \<longrightarrow>
            res = Inr (VectorStoreRetriever vs (TOP_K cfg))
          \<and> (\<forall>search compress llm q s st t t' docs chunks.
                search vs (TOP_K cfg) q = Inr docs
              \<and> llm (prompt (format_documents docs)
                       (messages (snd (get_session_history st s t t'))
                                 (fst (get_session_history st s t t'))) q) = (chunks, None) \<longrightarrow>
                (\<exists>r. res = Inr r \<and>
                   fst (ask_question (create_chain llm (invoke search compress r) t t') q s st)
                     = (Documents docs # map Str chunks, None))))
       \<and> (\<forall>search compress llm q s st t t' docs chunks r.
              res = Inr r
            \<and> invoke search compress r q = Inr docs
            \<and> llm (prompt (format_documents docs)
                     (messages (snd (get_session_history st s t t'))
                               (fst (get_session_history st s t t'))) q) = (chunks, None) \<longrightarrow>
              fst (ask_question (create_chain llm (invoke search compress r) t t') q s st)
                = (Documents docs # map Str chunks, None))"
proof -
  let ?base = "VectorStoreRetriever vs (TOP_K cfg)"
  let ?r1 = "fst (rerank_stage cfg env ?base)"
  have res: "res = Inr (fst (filter_stage cfg env ?r1))"
    and out: "out = snd (rerank_stage cfg env ?base) @ snd (filter_stage cfg env ?r1)"
    using create_retriever_stages [OF store, of cfg] made by simp_all
  have A: "\<exists>r. res = Inr r" using res by blast
  have B: "rerank_stage cfg env ?base =
              (?base, [''Warning: Reranker initialization failed: '' @ str_exn e])
         \<and> (''Warning: Reranker initialization failed: '' @ str_exn e) \<in> set out"
    if "USE_RERANKER cfg" "create_reranker env = Inl e"
    using rerank_stage_fails [OF that, of ?base] out by simp
  have C: "res = Inr ?r1
         \<and> (''Warning: Chain filter initialization failed: '' @ str_exn e') \<in> set out"
    if "USE_CHAIN_FILTER cfg" "from_llm env = Inl e'"
    using filter_stage_fails [OF that, of ?r1] res out by simp
  have G: "res = Inr (ContextualCompressionRetriever c ?base)"
    if "USE_RERANKER cfg" "create_reranker env = Inl e" "USE_CHAIN_FILTER cfg" "from_llm env = Inr c"
    using rerank_stage_fails [OF that(1,2), of ?base] filter_stage_succeeds [OF that(3,4), of ?r1] res
    by simp
  have H: "res = Inr (ContextualCompressionRetriever c ?base)"
    if "USE_RERANKER cfg" "create_reranker env = Inr c" "USE_CHAIN_FILTER cfg" "from_llm env = Inl e'"
    using rerank_stage_succeeds [OF that(1,2), of ?base] filter_stage_fails [OF that(3,4), of ?r1] res
    by simp
  have D1: "res = Inr ?base"
    if rr: "USE_RERANKER cfg \<longrightarrow> create_reranker env = Inl e"
      and ff: "USE_CHAIN_FILTER cfg \<longrightarrow> from_llm env = Inl e'"
  proof -
    have r1: "?r1 = ?base"
    proof (cases "USE_RERANKER cfg")
      case True
      then show ?thesis using rerank_stage_fails [of cfg env e ?base] rr by simp
    next
      case False
      then show ?thesis by (simp add: rerank_stage_def)
    qed
    show ?thesis
    proof (cases "USE_CHAIN_FILTER cfg")
      case True
      then show ?thesis using C ff r1 by simp
    next
      case False
      then show ?thesis using res r1 by (simp add: filter_stage_def)
    qed
  qed
  have E: "fst (ask_question (create_chain llm (invoke search compress r) t t') q s st)
                = (Documents docs # map Str chunks, None)"
    if "res = Inr r" "invoke search compress r q = Inr docs"
        "llm (prompt (format_documents docs)
              (messages (snd (get_session_history st s t t'))
                        (fst (get_session_history st s t t'))) q) = (chunks, None)"
    for search :: "'a \<Rightarrow> int \<Rightarrow> string \<Rightarrow> exn + document list"
      and compress :: "'b \<Rightarrow> string \<Rightarrow> document list \<Rightarrow> exn + document list"
      and llm q s st t t' docs chunks and r :: "('a, 'b) retriever"
    using ask_over_retriever [where search = search and compress = compress and r = r
        and q = q and docs = docs and llm = llm and st = st and s = s and t = t and t' = t'
        and chunks = chunks] that(2,3)
    by simp
  have D2: "\<exists>r. res = Inr r \<and>
              fst (ask_question (create_chain llm (invoke search compress r) t t') q s st)
                = (Documents docs # map Str chunks, None)"
    if d: "res = Inr ?base"
      and ok: "search vs (TOP_K cfg) q = Inr docs"
        "llm (prompt (format_documents docs)
              (messages (snd (get_session_history st s t t'))
                        (fst (get_session_history st s t t'))) q) = (chunks, None)"
    for search :: "'a \<Rightarrow> int \<Rightarrow> string \<Rightarrow> exn + document list"
      and compress :: "'b \<Rightarrow> string \<Rightarrow> document list \<Rightarrow> exn + document list"
      and llm q s st t t' docs chunks
  proof -
    have i: "invoke search compress ?base q = Inr docs" using ok(1) by simp
    show ?thesis
      using d i ok(2) ask_over_retriever [where search = search and compress = compress
        and r = "?base" and q = q and docs = docs and llm = llm and st = st and s = s
        and t = t and t' = t' and chunks = chunks]
      by simp
  qed
  have D: "res = Inr ?base
          \<and> (\<forall>search compress llm q s st t t' docs chunks.
                search vs (TOP_K cfg) q = Inr docs
              \<and> llm (prompt (format_documents docs)
                       (messages (snd (get_session_history st s t t'))
                                 (fst (get_session_history st s t t'))) q) = (chunks, None) \<longrightarrow>
                (\<exists>r. res = Inr r \<and>
                   fst (ask_question (create_chain llm (invoke search compress r) t t') q s st)
                     = (Documents docs # map Str chunks, None)))"
    if "USE_RERANKER cfg \<longrightarrow> create_reranker env = Inl e"
      "USE_CHAIN_FILTER cfg \<longrightarrow> from_llm env = Inl e'"
    using D1 [OF that] D2 by blast
  have E': "\<forall>search compress llm q s st t t' docs chunks r.
              res = Inr r
            \<and> invoke search compress r q = Inr docs
            \<and> llm (prompt (format_documents docs)
                     (messages (snd (get_session_history st s t t'))
                               (fst (get_session_history st s t t'))) q) = (chunks, None) \<longrightarrow>
              fst (ask_question (create_chain llm (invoke search compress r) t t') q s st)
                = (Documents docs # map Str chunks, None)"
    using E by blast
  show ?thesis
    apply (intro conjI impI)
    subgoal by (rule A)
    subgoal using B by blast
    subgoal using B by blast
    subgoal using C by blast
    subgoal using C by blast
    subgoal using G by blast
    subgoal using H by blast
    subgoal using D by blast
    subgoal using D by blast
    subgoal using E' by blast
    done
qed

lemma init_resolve:
  "get_session_history SessionManager_init s t t' =
     (0, \<lparr>sessions = [s \<mapsto> \<lparr>history = 0, created_at = t, last_accessed = t\<rparr>],
          session_timeout = 3600000000, heap = (\<lambda>a. []), next_addr = Suc 0\<rparr>)"
  by (simp add: get_session_history_def clean_expired_sessions_def expired_sessions_def
        SessionManager_init_def Let_def fun_eq_iff)

theorem ask_event_ordering_witness:
  "fst (ask_question (create_chain example_llm example_retriever 0 0) ''price of a fern?'' ''s''
          SessionManager_init)
     = ([Documents [example_doc], Str ''Ferns cost '', Str ''$12''], None)
   \<and> messages (snd (ask_question (create_chain example_llm example_retriever 0 0)
                      ''price of a fern?'' ''s'' SessionManager_init)) 0
     = [HumanMessage ''price of a fern?'', AIMessage ''Ferns cost $12'']"
proof -
  let ?a = "ask_question (create_chain example_llm example_retriever 0 0) ''price of a fern?'' ''s''
          SessionManager_init"
  have asked: "?a = ((fst (fst ?a), snd (fst ?a)), snd ?a)" by simp
  have r: "example_retriever ''price of a fern?'' = Inr [example_doc]"
    by (simp add: example_retriever_def)
  have l: "example_llm (prompt (format_documents [example_doc])
       (messages \<lparr>sessions = [''s'' \<mapsto> \<lparr>history = 0, created_at = 0, last_accessed = 0\<rparr>],
          session_timeout = 3600000000, heap = (\<lambda>a. []), next_addr = Suc 0\<rparr> 0) ''price of a fern?'')
       = ([''Ferns cost '', ''$12''], None)"
    by (simp add: example_llm_def)
  have "snd (fst ?a) = None
       \<and> fst (fst ?a) = Documents [example_doc] # map Str [''Ferns cost '', ''$12'']
       \<and> filter is_documents (fst (fst ?a)) = [Documents [example_doc]]
       \<and> filter is_str (fst (fst ?a)) = map Str [''Ferns cost '', ''$12'']
       \<and> messages (snd ?a) 0 =
           messages \<lparr>sessions = [''s'' \<mapsto> \<lparr>history = 0, created_at = 0, last_accessed = 0\<rparr>],
              session_timeout = 3600000000, heap = (\<lambda>a. []), next_addr = Suc 0\<rparr> 0
           @ [HumanMessage ''price of a fern?'', AIMessage (full_response (fst (fst ?a)))]"
    by (rule ask_event_ordering [OF init_resolve [of "''s''" 0 0] r l asked])
  then have ys: "fst (fst ?a) = [Documents [example_doc], Str ''Ferns cost '', Str ''$12'']"
    and rr: "snd (fst ?a) = None"
    and m: "messages (snd ?a) 0 =
           [HumanMessage ''price of a fern?'', AIMessage (full_response (fst (fst ?a)))]"
    by (simp_all add: messages_def)
  have fr: "full_response (fst (fst ?a)) = ''Ferns cost $12''"
    unfolding ys by (simp add: full_response_def)
  have "fst ?a = ([Documents [example_doc], Str ''Ferns cost '', Str ''$12''], None)"
    using ys rr by (simp add: prod_eq_iff)
  then show ?thesis using m fr by simp
qed

text \<open>
  The empty question is not refused: with collaborators that answer it, three events
  are yielded, none an error, and the history of the session gains two messages.
\<close>

theorem empty_question_counterexample:
  "fst (ask_question (create_chain example_llm example_retriever 0 0) [] ''s'' SessionManager_init)
     = ([Documents [example_doc], Str ''Ferns cost '', Str ''$12''], None)
   \<and> messages SessionManager_init 0 = []
   \<and> messages (snd (ask_question (create_chain example_llm example_retriever 0 0) [] ''s''
                      SessionManager_init)) 0
     = [HumanMessage [], AIMessage ''Ferns cost $12'']"
proof -
  have r: "example_retriever [] = Inr [example_doc]"
    by (simp add: example_retriever_def)
  have l: "example_llm (prompt (format_documents [example_doc])
       (messages \<lparr>sessions = [''s'' \<mapsto> \<lparr>history = 0, created_at = 0, last_accessed = 0\<rparr>],
          session_timeout = 3600000000, heap = (\<lambda>a. []), next_addr = Suc 0\<rparr> 0) [])
       = ([''Ferns cost '', ''$12''], None)"
    by (simp add: example_llm_def)
  show ?thesis
    using create_chain_succeeds [where retriever = example_retriever and q = "[]"
        and docs = "[example_doc]" and llm = example_llm
        and chunks = "[''Ferns cost '', ''$12'']", OF init_resolve [of "''s''" 0 0]] r l
    by (simp add: messages_def add_messages_def SessionManager_init_def)
qed

theorem ask_question_no_input_validation_witness:
  "strict_retriever [] = Inl (Exception ''empty query'')
   \<and> ask_question (create_chain example_llm strict_retriever 3600000001 3600000001) []
         ''new'' example_state
     = (([Str ''Error processing question: empty query''], None),
        snd (get_session_history example_state ''new'' 3600000001 3600000001))
   \<and> messages (snd (get_session_history example_state ''new'' 3600000001 3600000001)) 1
     = messages example_state 1"
proof -
  let ?g = "get_session_history example_state ''new'' 3600000001 3600000001"
  have g: "?g = (fst ?g, snd ?g)" by simp
  have r: "strict_retriever [] = Inl (Exception ''empty query'')"
    by (simp add: strict_retriever_def strip_def)
  have n: "(1::nat) < next_addr example_state" by (simp add: example_state_def)
  show ?thesis
    using ask_question_no_input_validation
      [OF g, of strict_retriever "[]" "Exception ''empty query''" example_llm] r n
    by simp
qed

theorem history_replay_witness:
  "sessions SessionManager_init ''s'' = None
   \<and> (5::int) - 0 \<le> session_timeout SessionManager_init
   \<and> (\<exists>d. sessions (snd (ask_question (create_chain example_llm example_retriever 5 5) ''q2'' ''s''
              (snd (ask_question (create_chain example_llm example_retriever 0 0) ''q1'' ''s''
                 SessionManager_init)))) ''s'' = Some d
        \<and> messages (snd (ask_question (create_chain example_llm example_retriever 5 5) ''q2'' ''s''
              (snd (ask_question (create_chain example_llm example_retriever 0 0) ''q1'' ''s''
                 SessionManager_init)))) (history d)
          = [HumanMessage ''q1'', AIMessage ''Ferns cost $12'',
             HumanMessage ''q2'', AIMessage ''Ferns cost $12''])
   \<and> messages (snd (ask_question (create_chain failing_llm example_retriever 0 0) ''q1'' ''s''
         SessionManager_init)) 0 = []"
proof -
  let ?a1 = "ask_question (create_chain example_llm example_retriever 0 0) ''q1'' ''s''
                 SessionManager_init"
  let ?a2 = "ask_question (create_chain example_llm example_retriever 5 5) ''q2'' ''s'' (snd ?a1)"
  have fresh: "sessions SessionManager_init ''s'' = None"
    by (simp add: SessionManager_init_def)
  have window: "(5::int) - 0 \<le> session_timeout SessionManager_init"
    by (simp add: SessionManager_init_def)
  have n: "next_addr SessionManager_init = 0"
    by (simp add: SessionManager_init_def)
  have r1: "example_retriever ''q1'' = Inr [example_doc]"
    and r2: "example_retriever ''q2'' = Inr [example_doc]"
    by (simp_all add: example_retriever_def)
  have l1: "example_llm (prompt (format_documents [example_doc]) [] ''q1'')
      = ([''Ferns cost '', ''$12''], None)"
    by (simp add: example_llm_def)
  have l2: "example_llm (prompt (format_documents [example_doc])
        [HumanMessage ''q1'', AIMessage (concat [''Ferns cost '', ''$12''])] ''q2'')
      = ([''Ferns cost '', ''$12''], None)"
    by (simp add: example_llm_def)
  have a1: "?a1 = (fst ?a1, snd ?a1)" and a2: "?a2 = (fst ?a2, snd ?a2)" by simp_all
  have f: "failing_llm (prompt (format_documents [example_doc]) [] ''q1'')
      = ([''Ferns''], Some (Exception ''connection lost''))"
    by (simp add: failing_llm_def)
  note h = history_replay [OF fresh r1 l1 a1 r2 l2 a2 window]
  from h have four: "\<exists>d. sessions (snd ?a2) ''s'' = Some d \<and>
      messages (snd ?a2) (history d) =
        [HumanMessage ''q1'', AIMessage (concat [''Ferns cost '', ''$12'']),
         HumanMessage ''q2'', AIMessage (concat [''Ferns cost '', ''$12''])]"
    by blast
  from h f have none: "messages (snd (ask_question (create_chain failing_llm example_retriever 0 0)
      ''q1'' ''s'' SessionManager_init)) (next_addr SessionManager_init) = []"
    by blast
  show ?thesis using fresh window four none n by simp
qed


theorem create_retriever_degrades_witness:
  "create_retriever default_config broken_reranker (Some ''plants'')
     = (Inr (VectorStoreRetriever ''plants'' 5),
        [''Warning: Reranker initialization failed: model not found''])"
proof -
  let ?c = "create_retriever default_config broken_reranker (Some ''plants'')"
  have store: "resolve_vector_store broken_reranker (Some ''plants'') = Inr ''plants''"
    by (simp add: resolve_vector_store_def broken_reranker_def)
  have made: "?c = (fst ?c, snd ?c)" by simp
  have u: "USE_RERANKER default_config" "\<not> USE_CHAIN_FILTER default_config"
    "TOP_K default_config = 5"
    by (simp_all add: default_config_def)
  have e: "create_reranker broken_reranker = Inl (Exception ''model not found'')"
    by (simp add: broken_reranker_def)
  note t = create_retriever_degrades [OF store made, of "Exception ''model not found''"]
  from t u e have r: "fst ?c = Inr (VectorStoreRetriever ''plants'' 5)"
    by simp
  have o: "snd ?c = [''Warning: Reranker initialization failed: model not found'']"
    using u e store by (simp add: create_retriever_def rerank_stage_def filter_stage_def)
  show ?thesis using r o by (simp add: prod_eq_iff)
qed

end
